theory Spec2Isabelle
  imports Main "HOL-Library.AList" "HOL-Library.Word"
begin

section \<open>The batch tracker of the validator (state/batch\_tracker.py)\<close>

text \<open>
  The tracker is a Python object with four mutable fields (\<open>_block_store\<close>,
  \<open>_invalid\<close>, \<open>_pending\<close>, \<open>_observers\<close>). Python dictionaries keep insertion
  order and the methods iterate over them, so each dictionary is an association list:
  \<open>d[k] = v\<close> is \<open>AList.update\<close> (overwrite in place, or append at the end),
  \<open>d.pop(k)\<close> is \<open>AList.delete\<close> when \<open>k\<close> is a key and raises \<open>KeyError\<close> otherwise,
  \<open>k in d\<close> is membership in the keys, \<open>d.copy()\<close> is the list itself.

  The methods that change the state run under the tracker's re-entrant lock, so one
  call is one step of a sequential model; a callback runs in the thread that holds
  the lock, so it can call the tracker again.

  The dictionaries of statuses that the registry holds
  are shared objects: the fan-out changes them in place, and an observer is handed
  the very object. They live in a store (\<open>heap\<close>) and the registry holds references.

  The resolution callback of an observer is code of the consumer. It is a parameter
  of the model: any function that takes the observer, the reference of the
  dictionary handed over and the state of the tracker, and gives back an exception
  or a normal return, and the state of the tracker as the code left it. So it may
  raise, and it may have called the tracker again. Every call into an observer is
  recorded in a trace (\<open>calls\<close>) before the consumer's code runs.
\<close>

subsection \<open>Data\<close>

type_synonym batch_id = string
type_synonym txn_id = string

text \<open>
  Modelled from the spec: the protobuf enumeration \<open>BatchStatus\<close> of
  \<open>client_pb2\<close> is not part of the sources at hand; the spec lists its four tags.
\<close>

datatype BatchStatus = COMMITTED | INVALID | PENDING | UNKNOWN

type_synonym statuses = "(batch_id \<times> BatchStatus) list"

text \<open>The values stored in a transaction-info dictionary: a \<open>str\<close> or \<open>bytes\<close>.\<close>

datatype pyval = Str string | Bytes "8 word list"

type_synonym txn_info = "(string \<times> pyval) list"

record transaction =
  header_signature :: txn_id

record batch =
  header_signature :: batch_id
  transactions :: "transaction list"

text \<open>
  An observer is an object that implements the interface \<open>BatchFinishObserver\<close>,
  whose one abstract method is \<open>notify_batches_finished\<close> (the abstract base class
  refuses to instantiate a subclass that does not define it). \<open>ident\<close> is the object's
  identity, by which Python hashes it as a dictionary key; \<open>extra_methods\<close> are the
  names of any further methods the object's class defines.
\<close>

datatype observer = Observer (ident: nat) (extra_methods: "string list")

text \<open>
  The exceptions: the three that the tracker's own code raises with a message or a
  key that is a string, the \<open>KeyError\<close> of a dictionary keyed by observers, and an
  exception that the consumer's code raises.
\<close>

datatype exn =
    NameError string
  | KeyError string
  | AttributeError string
  | KeyError_observer observer
  | Raised string

text \<open>A recorded callback: the observer, the method called, and the argument.\<close>

datatype call = Call observer string statuses

subsection \<open>The collaborators\<close>

text \<open>
  Modelled from the spec: the class \<open>TimedCache\<close> (journal/timed\_cache.py) is not
  part of the sources at hand. By the spec's contract, setting a key starts or
  refreshes its expiry timer of fixed duration \<open>keep_time\<close>; reading a key returns
  the value if it is present and not expired and signals a missing key otherwise;
  the membership test does likewise; an entry written at time \<open>T\<close> is readable
  before \<open>T + keep_time\<close> and missing from then on. The clock is read by the cache
  itself; here it is the argument \<open>now\<close>.
\<close>

record timed_cache =
  keep_time :: nat
  cache :: "(batch_id \<times> (txn_info \<times> nat)) list"

definition TimedCache :: "nat \<Rightarrow> timed_cache" where
  "TimedCache kt = \<lparr>keep_time = kt, cache = []\<rparr>"

definition tc_setitem :: "batch_id \<Rightarrow> txn_info \<Rightarrow> nat \<Rightarrow> timed_cache \<Rightarrow> timed_cache" where
  "tc_setitem k v now c = c\<lparr>cache := AList.update k (v, now) (cache c)\<rparr>"

definition tc_getitem :: "batch_id \<Rightarrow> nat \<Rightarrow> timed_cache \<Rightarrow> txn_info option" where
  "tc_getitem k now c =
     (case map_of (cache c) k of
        None \<Rightarrow> None
      | Some (v, t) \<Rightarrow> if now < t + keep_time c then Some v else None)"

definition tc_contains :: "batch_id \<Rightarrow> nat \<Rightarrow> timed_cache \<Rightarrow> bool" where
  "tc_contains k now c = (tc_getitem k now c \<noteq> None)"

text \<open>
  Modelled from the spec: the block store (journal/block\_store.py) is not part of
  the sources at hand. Its one operation used here, \<open>has_batch\<close>, answers whether a
  batch is committed, without side effects; the store is the set of committed ids.
\<close>

definition has_batch :: "batch_id set \<Rightarrow> batch_id \<Rightarrow> bool" where
  "has_batch store b = (b \<in> store)"

subsection \<open>The tracker\<close>

definition INVALID_KEEP_TIME :: nat where
  "INVALID_KEEP_TIME = 3600"

text \<open>
  The four fields of the object; the store of the dictionaries of statuses that the
  registry holds or has held, a reference being a position in it; then the
  environment: the clock that the cache reads, and the trace of the calls into
  observers made so far.
\<close>

type_synonym ref = nat

record tracker =
  block_store :: "batch_id set"
  invalid :: timed_cache
  pending :: "(batch_id \<times> txn_id set) list"
  observers :: "(observer \<times> ref) list"
  heap :: "statuses list"
  clock :: nat
  calls :: "call list"

type_synonym consumer = "observer \<Rightarrow> ref \<Rightarrow> tracker \<Rightarrow> (exn + unit) \<times> tracker"

text \<open>The dictionary behind a reference (every reference the tracker holds is in the
  store; outside it there is nothing to read).\<close>

definition deref :: "statuses list \<Rightarrow> ref \<Rightarrow> statuses" where
  "deref h r = (if r < length h then h ! r else [])"

text \<open>\<open>k in d\<close>, as the test that \<open>d.pop(k)\<close> makes: without a default, \<open>pop\<close>
  raises \<open>KeyError\<close> when the key is missing.\<close>

definition has_key :: "'k \<Rightarrow> ('k \<times> 'v) list \<Rightarrow> bool" where
  "has_key k d = (k \<in> fst ` set d)"

text \<open>\<open>__init__\<close>, on a block store with the given content, at the given time.\<close>

definition BatchTracker :: "batch_id set \<Rightarrow> nat \<Rightarrow> tracker" where
  "BatchTracker store t0 =
     \<lparr>block_store = store, invalid = TimedCache INVALID_KEEP_TIME,
      pending = [], observers = [], heap = [], clock = t0, calls = []\<rparr>"

text \<open>\<open>_has_no_pendings\<close>: \<open>all(s != PENDING for s in statuses.values())\<close>.\<close>

definition has_no_pendings :: "statuses \<Rightarrow> bool" where
  "has_no_pendings sts = list_all (\<lambda>s. s \<noteq> PENDING) (map snd sts)"

text \<open>
  The interface method of an observer, called with the dictionary behind \<open>r\<close>: the
  call is recorded with the dictionary as it is then, and the consumer's code runs.
\<close>

definition notify_batches_finished ::
  "consumer \<Rightarrow> observer \<Rightarrow> ref \<Rightarrow> tracker \<Rightarrow> (exn + unit) \<times> tracker" where
  "notify_batches_finished cb ob r s =
     cb ob r (s\<lparr>calls := calls s @ [Call ob ''notify_batches_finished'' (deref (heap s) r)]\<rparr>)"

text \<open>
  A call of a method that the interface does not declare: the attribute lookup
  raises \<open>AttributeError\<close> unless the object's class defines the method.
\<close>

definition call_method :: "observer \<Rightarrow> string \<Rightarrow> statuses \<Rightarrow> tracker \<Rightarrow> (exn + unit) \<times> tracker" where
  "call_method ob name sts s =
     (if name \<in> set (extra_methods ob)
      then (Inr (), s\<lparr>calls := calls s @ [Call ob name sts]\<rparr>)
      else (Inl (AttributeError name), s))"

text \<open>
  \<open>_update_observers\<close>: the body of the loop, then the loop over a snapshot of
  the registry. The snapshot is a shallow copy: it holds the observers and the
  references, so the loop reads and writes the dictionary behind the reference,
  whatever the registry holds by then. An exception of the callback leaves the loop
  and the method before the \<open>pop\<close>; the \<open>pop\<close> raises \<open>KeyError\<close> when the observer
  is no longer a key of the registry.
\<close>

definition update_observers_body ::
  "consumer \<Rightarrow> batch_id \<Rightarrow> BatchStatus \<Rightarrow> observer \<Rightarrow> ref \<Rightarrow> tracker
     \<Rightarrow> (exn + unit) \<times> tracker" where
  "update_observers_body cb batch_id status ob r s =
     (if has_key batch_id (deref (heap s) r) then
        (let s1 = s\<lparr>heap := (heap s)[r := AList.update batch_id status (deref (heap s) r)]\<rparr>
         in if has_no_pendings (deref (heap s1) r) then
              (case notify_batches_finished cb ob r s1 of
                 (Inl e, s2) \<Rightarrow> (Inl e, s2)
               | (Inr u, s2) \<Rightarrow>
                   if has_key ob (observers s2)
                   then (Inr (), s2\<lparr>observers := AList.delete ob (observers s2)\<rparr>)
                   else (Inl (KeyError_observer ob), s2))
            else (Inr (), s1))
      else (Inr (), s))"

fun update_observers_loop ::
  "consumer \<Rightarrow> batch_id \<Rightarrow> BatchStatus \<Rightarrow> (observer \<times> ref) list \<Rightarrow> tracker
     \<Rightarrow> (exn + unit) \<times> tracker" where
  "update_observers_loop cb batch_id status [] s = (Inr (), s)"
| "update_observers_loop cb batch_id status ((ob, r) # rest) s =
     (case update_observers_body cb batch_id status ob r s of
        (Inl e, s1) \<Rightarrow> (Inl e, s1)
      | (Inr u, s1) \<Rightarrow> update_observers_loop cb batch_id status rest s1)"

definition update_observers ::
  "consumer \<Rightarrow> batch_id \<Rightarrow> BatchStatus \<Rightarrow> tracker \<Rightarrow> (exn + unit) \<times> tracker" where
  "update_observers cb batch_id status s =
     update_observers_loop cb batch_id status (observers s) s"

text \<open>\<open>notify_store_updated\<close>: the loop over the keys of a snapshot of the pending
  set; an exception of the fan-out leaves it.\<close>

fun store_updated_loop :: "consumer \<Rightarrow> batch_id list \<Rightarrow> tracker \<Rightarrow> (exn + unit) \<times> tracker" where
  "store_updated_loop cb [] s = (Inr (), s)"
| "store_updated_loop cb (batch_id # rest) s =
     (if has_batch (block_store s) batch_id then
        (if has_key batch_id (pending s) then
           (case update_observers cb batch_id COMMITTED
                   (s\<lparr>pending := AList.delete batch_id (pending s)\<rparr>) of
              (Inl e, s1) \<Rightarrow> (Inl e, s1)
            | (Inr u, s1) \<Rightarrow> store_updated_loop cb rest s1)
         else (Inl (KeyError batch_id), s))
      else store_updated_loop cb rest s)"

definition notify_store_updated :: "consumer \<Rightarrow> tracker \<Rightarrow> (exn + unit) \<times> tracker" where
  "notify_store_updated cb s = store_updated_loop cb (map fst (pending s)) s"

text \<open>\<open>notify_txn_invalid\<close>: the dictionary built first, then the loop that returns at
  the first pending batch holding the transaction.\<close>

definition make_txn_info :: "txn_id \<Rightarrow> string option \<Rightarrow> 8 word list option \<Rightarrow> txn_info" where
  "make_txn_info txn_id message extended_data =
     (let txn_info = [(''id'', Str txn_id)];
          txn_info = (case message of None \<Rightarrow> txn_info
                      | Some m \<Rightarrow> AList.update ''message'' (Str m) txn_info);
          txn_info = (case extended_data of None \<Rightarrow> txn_info
                      | Some e \<Rightarrow> AList.update ''extended_data'' (Bytes e) txn_info)
      in txn_info)"

fun txn_invalid_loop ::
  "consumer \<Rightarrow> txn_id \<Rightarrow> txn_info \<Rightarrow> (batch_id \<times> txn_id set) list \<Rightarrow> tracker
     \<Rightarrow> (exn + unit) \<times> tracker" where
  "txn_invalid_loop cb txn_id txn_info [] s = (Inr (), s)"
| "txn_invalid_loop cb txn_id txn_info ((batch_id, txn_ids) # rest) s =
     (if txn_id \<in> txn_ids then
        (let s1 = s\<lparr>invalid := tc_setitem batch_id txn_info (clock s) (invalid s)\<rparr>
         in if has_key batch_id (pending s1)
            then update_observers cb batch_id INVALID
                   (s1\<lparr>pending := AList.delete batch_id (pending s1)\<rparr>)
            else (Inl (KeyError batch_id), s1))
      else txn_invalid_loop cb txn_id txn_info rest s)"

definition notify_txn_invalid ::
  "consumer \<Rightarrow> txn_id \<Rightarrow> string option \<Rightarrow> 8 word list option \<Rightarrow> tracker
     \<Rightarrow> (exn + unit) \<times> tracker" where
  "notify_txn_invalid cb txn_id message extended_data s =
     txn_invalid_loop cb txn_id (make_txn_info txn_id message extended_data) (pending s) s"

text \<open>
  \<open>notify_batch_pending\<close>. The last statement passes \<open>batch_id\<close>, a name that is
  bound neither in the method nor in the module: evaluating the argument raises
  \<open>NameError\<close> before \<open>_update_observers\<close> is entered, after the assignment to the
  pending set has been made.
\<close>

definition notify_batch_pending :: "batch \<Rightarrow> tracker \<Rightarrow> (exn + unit) \<times> tracker" where
  "notify_batch_pending b s =
     (let txn_ids = set (map transaction.header_signature (transactions b));
          s1 = s\<lparr>pending := AList.update (batch.header_signature b) txn_ids (pending s)\<rparr>
      in (Inl (NameError ''batch_id''), s1))"

text \<open>\<open>get_status\<close>, \<open>get_statuses\<close> (the dictionary comprehension as a loop).\<close>

definition get_status :: "batch_id \<Rightarrow> tracker \<Rightarrow> (exn + BatchStatus) \<times> tracker" where
  "get_status batch_id s =
     (if has_batch (block_store s) batch_id then (Inr COMMITTED, s)
      else if tc_contains batch_id (clock s) (invalid s) then (Inr INVALID, s)
      else if batch_id \<in> fst ` set (pending s) then (Inr PENDING, s)
      else (Inr UNKNOWN, s))"

fun get_statuses_loop :: "batch_id list \<Rightarrow> statuses \<Rightarrow> tracker \<Rightarrow> (exn + statuses) \<times> tracker" where
  "get_statuses_loop [] acc s = (Inr acc, s)"
| "get_statuses_loop (b # bs) acc s =
     (case get_status b s of
        (Inl e, s1) \<Rightarrow> (Inl e, s1)
      | (Inr st, s1) \<Rightarrow> get_statuses_loop bs (AList.update b st acc) s1)"

definition get_statuses :: "batch_id list \<Rightarrow> tracker \<Rightarrow> (exn + statuses) \<times> tracker" where
  "get_statuses batch_ids s = get_statuses_loop batch_ids [] s"

text \<open>\<open>get_invalid_txn_info\<close>: the cache's missing-key signal is caught and a
  \<open>KeyError\<close> with the formatted message is raised.\<close>

definition get_invalid_txn_info :: "batch_id \<Rightarrow> tracker \<Rightarrow> (exn + txn_info) \<times> tracker" where
  "get_invalid_txn_info batch_id s =
     (case tc_getitem batch_id (clock s) (invalid s) of
        Some info \<Rightarrow> (Inr info, s)
      | None \<Rightarrow>
          (Inl (KeyError (''Specified batch id not in invalid cache: '' @ batch_id)), s))"

text \<open>\<open>watch_statuses\<close>: the branch without pending statuses calls the method
  \<open>notify_finished\<close> of the observer; the other branch puts the new dictionary into
  the store and its reference into the registry.\<close>

definition watch_statuses :: "observer \<Rightarrow> batch_id list \<Rightarrow> tracker \<Rightarrow> (exn + unit) \<times> tracker" where
  "watch_statuses ob batch_ids s =
     (case get_statuses batch_ids s of
        (Inl e, s1) \<Rightarrow> (Inl e, s1)
      | (Inr sts, s1) \<Rightarrow>
          if has_no_pendings sts then call_method ob ''notify_finished'' sts s1
          else (Inr (), s1\<lparr>heap := heap s1 @ [sts],
                            observers := AList.update ob (length (heap s1)) (observers s1)\<rparr>))"

subsection \<open>Runs of the tracker\<close>

text \<open>
  One event is one call of a public method, or a move of the environment: the
  block store changes its content, or time passes. An exception ends the call and
  leaves the state as the call had changed it so far. A run is made with the
  consumer's code \<open>cb\<close> behind the resolution callbacks.
\<close>

datatype event =
    StoreUpdated
  | TxnInvalid txn_id "string option" "8 word list option"
  | BatchPending batch
  | GetStatus batch_id
  | GetStatuses "batch_id list"
  | GetInvalidTxnInfo batch_id
  | WatchStatuses observer "batch_id list"
  | BlockStoreBecomes "batch_id set"
  | TimePasses nat

fun step :: "consumer \<Rightarrow> event \<Rightarrow> tracker \<Rightarrow> tracker" where
  "step cb StoreUpdated s = snd (notify_store_updated cb s)"
| "step cb (TxnInvalid t m e) s = snd (notify_txn_invalid cb t m e s)"
| "step cb (BatchPending b) s = snd (notify_batch_pending b s)"
| "step cb (GetStatus b) s = snd (get_status b s)"
| "step cb (GetStatuses bs) s = snd (get_statuses bs s)"
| "step cb (GetInvalidTxnInfo b) s = snd (get_invalid_txn_info b s)"
| "step cb (WatchStatuses ob bs) s = snd (watch_statuses ob bs s)"
| "step cb (BlockStoreBecomes store) s = s\<lparr>block_store := store\<rparr>"
| "step cb (TimePasses d) s = s\<lparr>clock := clock s + d\<rparr>"

fun run :: "consumer \<Rightarrow> event list \<Rightarrow> tracker \<Rightarrow> tracker" where
  "run cb [] s = s"
| "run cb (e # es) s = run cb es (step cb e s)"

text \<open>
  Two pieces of consumer code: a callback that returns and leaves the tracker as it
  found it, and one that raises.
\<close>

definition returns :: consumer where
  "returns ob r s = (Inr (), s)"

definition raises :: consumer where
  "raises ob r s = (Inl (Raised ''callback failed''), s)"

subsection \<open>Notions used in the statements\<close>

text \<open>The status that \<open>get_status\<close> returns, as a function of the state.\<close>

definition status_of :: "tracker \<Rightarrow> batch_id \<Rightarrow> BatchStatus" where
  "status_of s b = (case fst (get_status b s) of Inr st \<Rightarrow> st | Inl _ \<Rightarrow> UNKNOWN)"

text \<open>
  What a transition \<open>(b, st)\<close> does to one entry of the registry, in the spec's words:
  an entry that holds \<open>b\<close> gets the new status; it is resolved by the transition when
  no \<open>PENDING\<close> is left in it, is then handed to the observer and leaves the registry.
  \<open>emit_registry\<close> is the registry after the transition and \<open>emit_calls\<close> the calls
  that the transition makes, in the order of the registry.
\<close>

fun resolved_by :: "batch_id \<Rightarrow> BatchStatus \<Rightarrow> observer \<times> statuses \<Rightarrow> bool" where
  "resolved_by b st (ob, sts) =
     (b \<in> fst ` set sts \<and> has_no_pendings (AList.update b st sts))"

fun finished_call :: "batch_id \<Rightarrow> BatchStatus \<Rightarrow> observer \<times> statuses \<Rightarrow> call" where
  "finished_call b st (ob, sts) =
     Call ob ''notify_batches_finished'' (AList.update b st sts)"

fun emit_entry ::
  "batch_id \<Rightarrow> BatchStatus \<Rightarrow> observer \<times> statuses \<Rightarrow> (observer \<times> statuses) list" where
  "emit_entry b st (ob, sts) =
     (if b \<in> fst ` set sts
      then (if has_no_pendings (AList.update b st sts) then []
            else [(ob, AList.update b st sts)])
      else [(ob, sts)])"

definition emit_registry ::
  "batch_id \<Rightarrow> BatchStatus \<Rightarrow> (observer \<times> statuses) list \<Rightarrow> (observer \<times> statuses) list" where
  "emit_registry b st reg = concat (map (emit_entry b st) reg)"

definition emit_calls ::
  "batch_id \<Rightarrow> BatchStatus \<Rightarrow> (observer \<times> statuses) list \<Rightarrow> call list" where
  "emit_calls b st reg = map (finished_call b st) (filter (resolved_by b st) reg)"

text \<open>
  The registry as the spec has it, observers with their snapshots: each reference
  of the registry read in the store. The registry is well formed when its keys are
  distinct, no two observers share a dictionary, and every reference is in the store.
\<close>

definition view :: "statuses list \<Rightarrow> (observer \<times> ref) list \<Rightarrow> (observer \<times> statuses) list" where
  "view h l = map (\<lambda>e. (fst e, deref h (snd e))) l"

definition registry :: "tracker \<Rightarrow> (observer \<times> statuses) list" where
  "registry s = view (heap s) (observers s)"

definition registry_wf :: "tracker \<Rightarrow> bool" where
  "registry_wf s =
     (distinct (map fst (observers s)) \<and> distinct (map snd (observers s)) \<and>
      list_all (\<lambda>e. snd e < length (heap s)) (observers s))"

text \<open>
  The store and the state after a fan-out whose callbacks return and leave the
  tracker alone (used in the proofs), and the registry and the trace after one
  transition for each batch of a list.
\<close>

fun heap_emit :: "batch_id \<Rightarrow> BatchStatus \<Rightarrow> (observer \<times> ref) list \<Rightarrow> statuses list \<Rightarrow> statuses list" where
  "heap_emit b st [] h = h"
| "heap_emit b st ((ob, r) # rest) h =
     heap_emit b st rest
       (if b \<in> fst ` set (deref h r) then h[r := AList.update b st (deref h r)] else h)"

definition emit_state :: "batch_id \<Rightarrow> BatchStatus \<Rightarrow> tracker \<Rightarrow> tracker" where
  "emit_state b st s =
     s\<lparr>heap := heap_emit b st (observers s) (heap s),
       observers := filter (\<lambda>e. \<not> resolved_by b st (fst e, deref (heap s) (snd e))) (observers s),
       calls := calls s @ emit_calls b st (registry s)\<rparr>"


text \<open>
  An event admits the batch id \<open>b\<close> when it is \<open>notify_batch_pending\<close> of a batch
  with that id.
\<close>

fun admits :: "batch_id \<Rightarrow> event \<Rightarrow> bool" where
  "admits b (BatchPending x) = (batch.header_signature x = b)"
| "admits b _ = False"

text \<open>
  No batch id is a key of the pending set and, at the same instant, a key of the
  record store (one that the store's membership test finds). A run is guarded when no
  batch is admitted while the record store holds its id.
\<close>

definition keys_disjoint :: "tracker \<Rightarrow> bool" where
  "keys_disjoint s = (\<forall>b \<in> fst ` set (pending s). \<not> tc_contains b (clock s) (invalid s))"

fun admission_guarded :: "tracker \<Rightarrow> event \<Rightarrow> bool" where
  "admission_guarded s (BatchPending x) =
     (\<not> tc_contains (batch.header_signature x) (clock s) (invalid s))"
| "admission_guarded s _ = True"

fun guarded_run :: "consumer \<Rightarrow> event list \<Rightarrow> tracker \<Rightarrow> bool" where
  "guarded_run cb [] s = True"
| "guarded_run cb (e # es) s = (admission_guarded s e \<and> guarded_run cb es (step cb e s))"

text \<open>
  The resolution callbacks that an observer has received, whether it is registered,
  the events that register it, and what the tracker still owes it: the callbacks
  made, and one more while it is registered. \<open>tracker_ok\<close> holds the invariants of
  the states that runs with returning callbacks reach: the two dictionaries have
  distinct keys, the registry is well formed, each snapshot holds a \<open>PENDING\<close> entry.
\<close>

fun is_finished_call :: "observer \<Rightarrow> call \<Rightarrow> bool" where
  "is_finished_call w (Call ob name sts) = (ob = w \<and> name = ''notify_batches_finished'')"

definition finished_calls :: "observer \<Rightarrow> tracker \<Rightarrow> nat" where
  "finished_calls w s = length (filter (is_finished_call w) (calls s))"

definition registered :: "observer \<Rightarrow> tracker \<Rightarrow> bool" where
  "registered w s = (w \<in> fst ` set (registry s))"




definition tracker_ok :: "tracker \<Rightarrow> bool" where
  "tracker_ok s = (registry_wf s \<and> distinct (map fst (pending s)) \<and>
                   list_all (\<lambda>e. \<not> has_no_pendings (snd e)) (registry s))"

definition owed :: "observer \<Rightarrow> tracker \<Rightarrow> nat" where
  "owed w s = finished_calls w s + (if registered w s then 1 else 0)"



text \<open>A batch object with the given id and transaction ids.\<close>

definition mk_batch :: "batch_id \<Rightarrow> txn_id list \<Rightarrow> batch" where
  "mk_batch b ts =
     \<lparr>header_signature = b,
      transactions = map (\<lambda>t. \<lparr>transaction.header_signature = t\<rparr>) ts\<rparr>"





text \<open>
  A state in which one id is committed, invalid and pending at once, one invalid, one
  pending; a batch marked invalid at time 100; an observer that waits for a pending
  batch and holds an unknown one; a committed batch and an invalid one; an observer
  that waits for two pending batches beside a committed one, before and after the
  first is rejected; two pending batches and two observers, the first waiting for one
  batch only, then the same with both batches, and with the first alone, in the block
  store.
\<close>

definition s_mixed :: tracker where
  "s_mixed =
     run returns
       [BatchPending (mk_batch ''B1'' [''t1'']), BatchPending (mk_batch ''B2'' [''t2'']),
        TxnInvalid ''t1'' None None, TxnInvalid ''t2'' (Some ''bad sig'') None,
        BatchPending (mk_batch ''B1'' [''t1'']), BatchPending (mk_batch ''B3'' [''t3''])]
       (BatchTracker {''B1''} 0)"

definition s_invalid :: tracker where
  "s_invalid = run returns [BatchPending (mk_batch ''B1'' [''t1'', ''t2'']),
                            TxnInvalid ''t1'' (Some ''bad sig'') None] (BatchTracker {} 100)"

definition s_watching :: tracker where
  "s_watching = run returns [BatchPending (mk_batch ''B0'' [''t0'']),
                             WatchStatuses (Observer 1 []) [''B0'', ''B1'']] (BatchTracker {} 0)"

definition s_resolved :: tracker where
  "s_resolved = run returns [BatchPending (mk_batch ''B2'' [''t2'']), TxnInvalid ''t2'' None None]
                  (BatchTracker {''B1''} 0)"








section \<open>Properties\<close>

subsection \<open>The store and the registry\<close>

lemma deref_update:
  "r < length h \<Longrightarrow> deref (h[r := v]) r' = (if r' = r then v else deref h r')"
  by (simp add: deref_def)

lemma length_heap_emit [simp]: "length (heap_emit b st snap h) = length h"
  by (induction b st snap h rule: heap_emit.induct) simp_all


lemma view_Nil [simp]: "view h [] = []"
  by (simp add: view_def)

lemma view_Cons [simp]: "view h ((ob, r) # l) = (ob, deref h r) # view h l"
  by (simp add: view_def)

lemma view_append [simp]: "view h (l @ l') = view h l @ view h l'"
  by (simp add: view_def)

lemma map_fst_view [simp]: "map fst (view h l) = map fst l"
  by (simp add: view_def comp_def)

lemma view_cong:
  "(\<And>r. r \<in> snd ` set l \<Longrightarrow> deref h r = deref h' r) \<Longrightarrow> view h l = view h' l"
  by (simp add: view_def)

lemma view_update_other:
  assumes "r \<notin> snd ` set l"
  shows "view (h[r := v]) l = view h l"
proof (rule view_cong)
  fix r' assume "r' \<in> snd ` set l"
  with assms have "r' \<noteq> r" by auto
  then show "deref (h[r := v]) r' = deref h r'" by (simp add: deref_def)
qed

lemma emit_registry_simps [simp]:
  "emit_registry b st [] = []"
  "emit_registry b st (e # reg) = emit_entry b st e @ emit_registry b st reg"
  by (simp_all add: emit_registry_def)

lemma emit_calls_simps [simp]:
  "emit_calls b st [] = []"
  "emit_calls b st (e # reg) =
     (if resolved_by b st e then [finished_call b st e] else []) @ emit_calls b st reg"
  by (simp_all add: emit_calls_def)



subsection \<open>The fan-out with callbacks that return\<close>





subsection \<open>The sweep of the pending set with callbacks that return\<close>



lemma emit_state_frame [simp]:
  "block_store (emit_state b st s) = block_store s"
  "invalid (emit_state b st s) = invalid s"
  "pending (emit_state b st s) = pending s"
  "clock (emit_state b st s) = clock s"
  by (simp_all add: emit_state_def)

lemma registry_frame [simp]:
  "registry (s\<lparr>pending := p\<rparr>) = registry s"
  "registry (s\<lparr>invalid := i\<rparr>) = registry s"
  "registry (s\<lparr>block_store := bs\<rparr>) = registry s"
  "registry (s\<lparr>clock := c\<rparr>) = registry s"
  "registry (s\<lparr>calls := cs\<rparr>) = registry s"
  "registry_wf (s\<lparr>pending := p\<rparr>) = registry_wf s"
  "registry_wf (s\<lparr>invalid := i\<rparr>) = registry_wf s"
  "registry_wf (s\<lparr>block_store := bs\<rparr>) = registry_wf s"
  "registry_wf (s\<lparr>clock := c\<rparr>) = registry_wf s"
  "registry_wf (s\<lparr>calls := cs\<rparr>) = registry_wf s"
  by (simp_all add: registry_def registry_wf_def)







subsection \<open>What the methods keep, whatever the callbacks do\<close>

lemma get_status_state [simp]: "snd (get_status b s) = s"
  by (simp add: get_status_def)

lemma get_status_total: "\<exists>st. get_status b s = (Inr st, s)"
  by (simp add: get_status_def)

lemma get_status_eq: "get_status b s = (Inr (status_of s b), s)"
  by (simp add: get_status_def status_of_def)

lemma get_statuses_loop_eq:
  "get_statuses_loop bs acc s = (Inr (fold (\<lambda>b acc. AList.update b (status_of s b) acc) bs acc), s)"
  by (induction bs arbitrary: acc) (simp_all add: get_status_eq)

lemma get_statuses_eq:
  "get_statuses bs s = (Inr (fold (\<lambda>b acc. AList.update b (status_of s b) acc) bs []), s)"
  by (simp add: get_statuses_def get_statuses_loop_eq)

lemma body_preserves:
  assumes cb: "\<And>ob r s. P s \<Longrightarrow> P (snd (cb ob r s))"
    and frame: "\<And>s s'. pending s' = pending s \<Longrightarrow> invalid s' = invalid s \<Longrightarrow>
                 clock s' = clock s \<Longrightarrow> P s \<Longrightarrow> P s'"
    and P: "P s"
  shows "P (snd (update_observers_body cb b st ob r s))"
proof (cases "has_key b (deref (heap s) r) \<and>
              has_no_pendings (AList.update b st (deref (heap s) r)) \<and> r < length (heap s)")
  case False
  have "P (s\<lparr>heap := (heap s)[r := AList.update b st (deref (heap s) r)]\<rparr>)"
    using P by (rule frame [rotated 3]) simp_all
  with False P show ?thesis
    by (auto simp: update_observers_body_def Let_def deref_def has_key_def)
next
  case True
  let ?s1 = "s\<lparr>heap := (heap s)[r := AList.update b st (deref (heap s) r)]\<rparr>"
  let ?sc = "?s1\<lparr>calls := calls ?s1 @ [Call ob ''notify_batches_finished'' (deref (heap ?s1) r)]\<rparr>"
  have "P ?sc" using P by (rule frame [rotated 3]) simp_all
  then have P2: "P (snd (cb ob r ?sc))" by (rule cb)
  have P3: "P ((snd (cb ob r ?sc))\<lparr>observers := x\<rparr>)" for x
    using P2 by (rule frame [rotated 3]) simp_all
  obtain res s2 where c: "cb ob r ?sc = (res, s2)" by (cases "cb ob r ?sc")
  with P2 P3 [of "AList.delete ob (observers s2)"] True show ?thesis
    by (cases res)
       (simp_all add: update_observers_body_def Let_def notify_batches_finished_def deref_update)
qed

lemma loop_preserves:
  assumes cb: "\<And>ob r s. P s \<Longrightarrow> P (snd (cb ob r s))"
    and frame: "\<And>s s'. pending s' = pending s \<Longrightarrow> invalid s' = invalid s \<Longrightarrow>
                 clock s' = clock s \<Longrightarrow> P s \<Longrightarrow> P s'"
  shows "P s \<Longrightarrow> P (snd (update_observers_loop cb b st snap s))"
proof (induction snap arbitrary: s)
  case Nil
  then show ?case by simp
next
  case (Cons e rest)
  obtain ob r where e: "e = (ob, r)" by (cases e)
  have Pb: "P (snd (update_observers_body cb b st ob r s))"
    using cb frame Cons.prems by (rule body_preserves)
  obtain res s1 where b1: "update_observers_body cb b st ob r s = (res, s1)"
    by (cases "update_observers_body cb b st ob r s")
  with Pb have "P s1" by simp
  with Cons.IH [of s1] b1 e show ?case by (cases res) simp_all
qed

lemma update_observers_preserves:
  assumes "\<And>ob r s. P s \<Longrightarrow> P (snd (cb ob r s))"
    and "\<And>s s'. pending s' = pending s \<Longrightarrow> invalid s' = invalid s \<Longrightarrow>
           clock s' = clock s \<Longrightarrow> P s \<Longrightarrow> P s'"
    and "P s"
  shows "P (snd (update_observers cb b st s))"
  unfolding update_observers_def using assms by (rule loop_preserves)

lemma store_updated_loop_preserves:
  assumes cb: "\<And>ob r s. P s \<Longrightarrow> P (snd (cb ob r s))"
    and frame: "\<And>s s'. pending s' = pending s \<Longrightarrow> invalid s' = invalid s \<Longrightarrow>
                 clock s' = clock s \<Longrightarrow> P s \<Longrightarrow> P s'"
    and del: "\<And>s k. P s \<Longrightarrow> P (s\<lparr>pending := AList.delete k (pending s)\<rparr>)"
  shows "P s \<Longrightarrow> P (snd (store_updated_loop cb ks s))"
proof (induction ks arbitrary: s)
  case Nil
  then show ?case by simp
next
  case (Cons k ks)
  let ?s0 = "s\<lparr>pending := AList.delete k (pending s)\<rparr>"
  have "P ?s0" using Cons.prems by (rule del)
  with cb frame have P1: "P (snd (update_observers cb k COMMITTED ?s0))"
    by (rule update_observers_preserves)
  obtain res s1 where u: "update_observers cb k COMMITTED ?s0 = (res, s1)"
    by (cases "update_observers cb k COMMITTED ?s0")
  with P1 have "P s1" by simp
  with Cons.IH [of s1] Cons.IH [of s] Cons.prems u show ?case
    by (cases res) simp_all
qed



lemma txn_invalid_loop_cases:
  "fst ` set snap \<subseteq> fst ` set (pending s) \<Longrightarrow>
   txn_invalid_loop cb txn info snap s = (Inr (), s) \<or>
   (\<exists>B \<in> fst ` set (pending s). txn_invalid_loop cb txn info snap s =
      update_observers cb B INVALID
        (s\<lparr>invalid := tc_setitem B info (clock s) (invalid s),
           pending := AList.delete B (pending s)\<rparr>))"
proof (induction snap)
  case Nil
  then show ?case by simp
next
  case (Cons e snap)
  obtain B T where e: "e = (B, T)" by (cases e)
  with Cons.prems have k: "has_key B (pending s)" "B \<in> fst ` set (pending s)"
    by (auto simp: has_key_def)
  from Cons have IH: "txn_invalid_loop cb txn info snap s = (Inr (), s) \<or>
   (\<exists>B \<in> fst ` set (pending s). txn_invalid_loop cb txn info snap s =
      update_observers cb B INVALID
        (s\<lparr>invalid := tc_setitem B info (clock s) (invalid s),
           pending := AList.delete B (pending s)\<rparr>))" by simp
  show ?case
  proof (cases "txn \<in> T")
    case True
    with e k show ?thesis by auto
  next
    case False
    with e IH show ?thesis by simp
  qed
qed

lemma notify_txn_invalid_cases:
  "notify_txn_invalid cb txn m e s = (Inr (), s) \<or>
   (\<exists>B \<in> fst ` set (pending s). notify_txn_invalid cb txn m e s =
      update_observers cb B INVALID
        (s\<lparr>invalid := tc_setitem B (make_txn_info txn m e) (clock s) (invalid s),
           pending := AList.delete B (pending s)\<rparr>))"
  using txn_invalid_loop_cases [of "pending s" s cb txn "make_txn_info txn m e"]
  by (simp add: notify_txn_invalid_def)

lemma watch_statuses_frame:
  "pending (snd (watch_statuses ob bs s)) = pending s \<and>
   invalid (snd (watch_statuses ob bs s)) = invalid s \<and>
   clock (snd (watch_statuses ob bs s)) = clock s \<and>
   block_store (snd (watch_statuses ob bs s)) = block_store s"
  by (simp add: watch_statuses_def get_statuses_eq call_method_def)

subsection \<open>The pending set and the record store along a run\<close>

lemma step_keeps_out:
  assumes cb: "\<And>ob r s'. b \<notin> fst ` set (pending s') \<Longrightarrow> b \<notin> fst ` set (pending (snd (cb ob r s')))"
    and "\<not> admits b e" and out: "b \<notin> fst ` set (pending s)"
  shows "b \<notin> fst ` set (pending (step cb e s))"
proof (cases e)
  case StoreUpdated
  have "b \<notin> fst ` set (pending (snd (store_updated_loop cb (map fst (pending s)) s)))"
  proof (rule store_updated_loop_preserves [where P = "\<lambda>s. b \<notin> fst ` set (pending s)"])
    show "b \<notin> fst ` set (pending (s'\<lparr>pending := AList.delete k (pending s')\<rparr>))"
      if "b \<notin> fst ` set (pending s')" for s' k
      using that AList.dom_delete_subset [of k "pending s'"] by auto
  qed (use cb out in auto)
  with StoreUpdated show ?thesis by (simp add: notify_store_updated_def)
next
  case (TxnInvalid t m x)
  from notify_txn_invalid_cases [of cb t m x s] show ?thesis
  proof
    assume "notify_txn_invalid cb t m x s = (Inr (), s)"
    with TxnInvalid out show ?thesis by simp
  next
    assume "\<exists>B \<in> fst ` set (pending s). notify_txn_invalid cb t m x s =
      update_observers cb B INVALID
        (s\<lparr>invalid := tc_setitem B (make_txn_info t m x) (clock s) (invalid s),
           pending := AList.delete B (pending s)\<rparr>)"
    then obtain B where B: "notify_txn_invalid cb t m x s =
      update_observers cb B INVALID
        (s\<lparr>invalid := tc_setitem B (make_txn_info t m x) (clock s) (invalid s),
           pending := AList.delete B (pending s)\<rparr>)" by blast
    let ?s1 = "s\<lparr>invalid := tc_setitem B (make_txn_info t m x) (clock s) (invalid s),
           pending := AList.delete B (pending s)\<rparr>"
    have "b \<notin> fst ` set (pending ?s1)"
      using out AList.dom_delete_subset [of B "pending s"] by auto
    then have "b \<notin> fst ` set (pending (snd (update_observers cb B INVALID ?s1)))"
      by (rule update_observers_preserves [where P = "\<lambda>s. b \<notin> fst ` set (pending s)", rotated 2])
         (use cb in auto)
    with TxnInvalid B show ?thesis by simp
  qed
next
  case (BatchPending x)
  with assms show ?thesis by (simp add: notify_batch_pending_def AList.dom_update)
next
  case (WatchStatuses ob bs)
  with assms show ?thesis by (simp add: watch_statuses_frame)
qed (use assms in \<open>simp_all add: get_statuses_eq get_invalid_txn_info_def split: option.splits\<close>)

lemma tc_contains_setitem_other:
  "b \<noteq> B \<Longrightarrow> tc_contains b now (tc_setitem B info t c) = tc_contains b now c"
  by (simp add: tc_contains_def tc_getitem_def tc_setitem_def AList.update_conv'
        split: option.splits)

lemma tc_contains_later:
  "tc_contains b (now + d) c \<Longrightarrow> tc_contains b now c"
  by (auto simp: tc_contains_def tc_getitem_def split: option.splits if_splits)

lemma keys_disjoint_frame:
  "pending s' = pending s \<Longrightarrow> invalid s' = invalid s \<Longrightarrow> clock s' = clock s \<Longrightarrow>
   keys_disjoint s \<Longrightarrow> keys_disjoint s'"
  by (simp add: keys_disjoint_def)

lemma keys_disjoint_delete:
  "keys_disjoint s \<Longrightarrow> keys_disjoint (s\<lparr>pending := AList.delete k (pending s)\<rparr>)"
proof -
  assume d: "keys_disjoint s"
  have "\<not> tc_contains b (clock s) (invalid s)" if "b \<in> fst ` set (AList.delete k (pending s))" for b
  proof -
    from that AList.dom_delete_subset [of k "pending s"] have "b \<in> fst ` set (pending s)"
      by blast
    with d show ?thesis unfolding keys_disjoint_def by blast
  qed
  then show ?thesis by (simp add: keys_disjoint_def)
qed

lemma keys_disjoint_invalidate:
  assumes "keys_disjoint s"
  shows "keys_disjoint (s\<lparr>invalid := tc_setitem B info (clock s) (invalid s),
                          pending := AList.delete B (pending s)\<rparr>)"
proof -
  have "\<not> tc_contains b (clock s) (tc_setitem B info (clock s) (invalid s))"
    if "b \<in> fst ` set (AList.delete B (pending s))" for b
  proof -
    from that have "b \<noteq> B" using AList.delete_notin_dom [of B "pending s"] by auto
    moreover from that have "b \<in> fst ` set (pending s)"
      using AList.dom_delete_subset [of B "pending s"] by auto
    ultimately show ?thesis using assms
      by (auto simp: tc_contains_setitem_other keys_disjoint_def)
  qed
  then show ?thesis by (simp add: keys_disjoint_def)
qed

lemma step_keeps_disjoint:
  assumes cb: "\<And>ob r s'. keys_disjoint s' \<Longrightarrow> keys_disjoint (snd (cb ob r s'))"
    and dis: "keys_disjoint s" and "admission_guarded s e"
  shows "keys_disjoint (step cb e s)"
proof (cases e)
  case StoreUpdated
  have "keys_disjoint (snd (store_updated_loop cb (map fst (pending s)) s))"
    using cb keys_disjoint_frame keys_disjoint_delete dis
    by (rule store_updated_loop_preserves [where P = keys_disjoint])
  with StoreUpdated show ?thesis by (simp add: notify_store_updated_def)
next
  case (TxnInvalid t m x)
  from notify_txn_invalid_cases [of cb t m x s] show ?thesis
  proof
    assume "notify_txn_invalid cb t m x s = (Inr (), s)"
    with TxnInvalid dis show ?thesis by simp
  next
    assume "\<exists>B \<in> fst ` set (pending s). notify_txn_invalid cb t m x s =
      update_observers cb B INVALID
        (s\<lparr>invalid := tc_setitem B (make_txn_info t m x) (clock s) (invalid s),
           pending := AList.delete B (pending s)\<rparr>)"
    then obtain B where B: "notify_txn_invalid cb t m x s =
      update_observers cb B INVALID
        (s\<lparr>invalid := tc_setitem B (make_txn_info t m x) (clock s) (invalid s),
           pending := AList.delete B (pending s)\<rparr>)" by blast
    let ?s1 = "s\<lparr>invalid := tc_setitem B (make_txn_info t m x) (clock s) (invalid s),
           pending := AList.delete B (pending s)\<rparr>"
    have "keys_disjoint ?s1" using dis by (rule keys_disjoint_invalidate)
    with cb keys_disjoint_frame have "keys_disjoint (snd (update_observers cb B INVALID ?s1))"
      by (rule update_observers_preserves [where P = keys_disjoint])
    with TxnInvalid B show ?thesis by simp
  qed
next
  case (BatchPending x)
  with assms show ?thesis
    by (auto simp: keys_disjoint_def notify_batch_pending_def AList.dom_update)
next
  case (WatchStatuses ob bs)
  with dis show ?thesis by (simp add: keys_disjoint_def watch_statuses_frame)
next
  case (TimePasses d)
  with dis show ?thesis by (auto simp: keys_disjoint_def dest: tc_contains_later)
next
  case (GetInvalidTxnInfo b)
  with dis show ?thesis by (simp add: get_invalid_txn_info_def split: option.splits)
qed (use dis in \<open>simp_all add: get_statuses_eq keys_disjoint_def\<close>)

lemma run_keeps_disjoint:
  assumes "\<And>ob r s'. keys_disjoint s' \<Longrightarrow> keys_disjoint (snd (cb ob r s'))"
  shows "keys_disjoint s \<Longrightarrow> guarded_run cb es s \<Longrightarrow> keys_disjoint (run cb es s)"
  by (induction es arbitrary: s) (simp_all add: step_keeps_disjoint assms)

lemma keys_disjoint_init: "keys_disjoint (BatchTracker store t0)"
  by (simp add: keys_disjoint_def BatchTracker_def)

subsection \<open>One transition: who is called, who stays registered\<close>













lemma ok_fields [simp]:
  "tracker_ok (s\<lparr>invalid := i\<rparr>) = tracker_ok s"
  "tracker_ok (s\<lparr>block_store := bs\<rparr>) = tracker_ok s"
  "tracker_ok (s\<lparr>clock := c\<rparr>) = tracker_ok s"
  "owed w (s\<lparr>pending := p\<rparr>) = owed w s"
  "owed w (s\<lparr>invalid := i\<rparr>) = owed w s"
  "owed w (s\<lparr>block_store := bs\<rparr>) = owed w s"
  "owed w (s\<lparr>clock := c\<rparr>) = owed w s"
  "finished_calls w (s\<lparr>pending := p\<rparr>) = finished_calls w s"
  "finished_calls w (s\<lparr>invalid := i\<rparr>) = finished_calls w s"
  "finished_calls w (s\<lparr>block_store := bs\<rparr>) = finished_calls w s"
  "finished_calls w (s\<lparr>clock := c\<rparr>) = finished_calls w s"
  by (simp_all add: tracker_ok_def owed_def finished_calls_def registered_def)

lemma tracker_ok_pending:
  "tracker_ok s \<Longrightarrow> distinct (map fst p) \<Longrightarrow> tracker_ok (s\<lparr>pending := p\<rparr>)"
  by (simp add: tracker_ok_def)


subsection \<open>Callbacks and registrations along a run\<close>























subsection \<open>Entries of the registry across a transition\<close>





subsection \<open>Evaluation of concrete runs\<close>

lemmas model_defs =
  BatchTracker_def TimedCache_def INVALID_KEEP_TIME_def tc_setitem_def tc_getitem_def
  tc_contains_def has_batch_def has_no_pendings_def notify_batches_finished_def
  call_method_def update_observers_body_def update_observers_def notify_store_updated_def
  make_txn_info_def notify_txn_invalid_def notify_batch_pending_def get_status_def
  get_statuses_def get_invalid_txn_info_def watch_statuses_def mk_batch_def Let_def
  deref_def has_key_def returns_def raises_def

lemma s_mixed_eq:
  "s_mixed =
     \<lparr>block_store = {''B1''},
      invalid = \<lparr>keep_time = 3600,
                 cache = [(''B1'', [(''id'', Str ''t1'')], 0),
                          (''B2'', [(''id'', Str ''t2''), (''message'', Str ''bad sig'')], 0)]\<rparr>,
      pending = [(''B1'', {''t1''}), (''B3'', {''t3''})],
      observers = [], heap = [], clock = 0, calls = []\<rparr>"
  by (simp add: s_mixed_def model_defs)

lemma s_invalid_eq:
  "s_invalid =
     \<lparr>block_store = {},
      invalid = \<lparr>keep_time = 3600,
                 cache = [(''B1'', [(''id'', Str ''t1''), (''message'', Str ''bad sig'')], 100)]\<rparr>,
      pending = [], observers = [], heap = [], clock = 100, calls = []\<rparr>"
  by (simp add: s_invalid_def model_defs)

lemma s_watching_eq:
  "s_watching =
     \<lparr>block_store = {}, invalid = \<lparr>keep_time = 3600, cache = []\<rparr>,
      pending = [(''B0'', {''t0''})], observers = [(Observer 1 [], 0)],
      heap = [[(''B0'', PENDING), (''B1'', UNKNOWN)]], clock = 0, calls = []\<rparr>"
  by (simp add: s_watching_def model_defs)





lemmas view_defs = registry_def view_def registry_wf_def






section \<open>The claims\<close>

text \<open>
  C7. \<open>get_status\<close> applies the fixed precedence committed (block store), invalid
  (record store), pending (pending set), unknown. It returns the state as it found it,
  and it returns a status for every batch id: an id found in none of the three
  sources gives \<open>UNKNOWN\<close>, never an exception.
\<close>

theorem get_status_precedence:
  "(has_batch (block_store s) b \<longrightarrow> get_status b s = (Inr COMMITTED, s)) \<and>
   (\<not> has_batch (block_store s) b \<and> tc_contains b (clock s) (invalid s)
      \<longrightarrow> get_status b s = (Inr INVALID, s)) \<and>
   (\<not> has_batch (block_store s) b \<and> \<not> tc_contains b (clock s) (invalid s) \<and>
    b \<in> fst ` set (pending s) \<longrightarrow> get_status b s = (Inr PENDING, s)) \<and>
   (\<not> has_batch (block_store s) b \<and> \<not> tc_contains b (clock s) (invalid s) \<and>
    b \<notin> fst ` set (pending s) \<longrightarrow> get_status b s = (Inr UNKNOWN, s))"
  by (simp add: get_status_def)

theorem get_status_precedence_witness:
  "has_batch (block_store s_mixed) ''B1'' \<and>
   tc_contains ''B1'' (clock s_mixed) (invalid s_mixed) \<and>
   ''B1'' \<in> fst ` set (pending s_mixed) \<and>
   get_status ''B1'' s_mixed = (Inr COMMITTED, s_mixed) \<and>
   \<not> has_batch (block_store s_mixed) ''B2'' \<and>
   tc_contains ''B2'' (clock s_mixed) (invalid s_mixed) \<and>
   get_status ''B2'' s_mixed = (Inr INVALID, s_mixed) \<and>
   get_status ''B3'' s_mixed = (Inr PENDING, s_mixed) \<and>
   get_status ''B4'' s_mixed = (Inr UNKNOWN, s_mixed)"
  using get_status_precedence [of s_mixed "''B1''"] get_status_precedence [of s_mixed "''B2''"]
    get_status_precedence [of s_mixed "''B3''"] get_status_precedence [of s_mixed "''B4''"]
  by (simp add: s_mixed_eq has_batch_def tc_contains_def tc_getitem_def)

text \<open>
  C9. \<open>get_invalid_txn_info\<close> returns the stored record when the batch id is present
  in the record store and not expired; when the id is absent, or present but expired,
  it raises \<open>KeyError\<close> with a message that ends in the batch id. With a readable
  record it does not fail, and in every case the state is left as it was.
\<close>

theorem get_invalid_txn_info_result:
  "(map_of (cache (invalid s)) b = Some (info, t) \<and> clock s < t + keep_time (invalid s)
      \<longrightarrow> get_invalid_txn_info b s = (Inr info, s)) \<and>
   (map_of (cache (invalid s)) b = Some (info, t) \<and> \<not> clock s < t + keep_time (invalid s)
      \<longrightarrow> get_invalid_txn_info b s =
            (Inl (KeyError (''Specified batch id not in invalid cache: '' @ b)), s)) \<and>
   (map_of (cache (invalid s)) b = None
      \<longrightarrow> get_invalid_txn_info b s =
            (Inl (KeyError (''Specified batch id not in invalid cache: '' @ b)), s))"
  by (simp add: get_invalid_txn_info_def tc_getitem_def)

theorem get_invalid_txn_info_result_witness:
  "map_of (cache (invalid s_invalid)) ''B1''
     = Some ([(''id'', Str ''t1''), (''message'', Str ''bad sig'')], 100) \<and>
   get_invalid_txn_info ''B1'' (step returns (TimePasses 3599) s_invalid)
     = (Inr [(''id'', Str ''t1''), (''message'', Str ''bad sig'')],
        step returns (TimePasses 3599) s_invalid) \<and>
   get_invalid_txn_info ''B1'' (step returns (TimePasses 3600) s_invalid)
     = (Inl (KeyError ''Specified batch id not in invalid cache: B1''),
        step returns (TimePasses 3600) s_invalid) \<and>
   map_of (cache (invalid s_invalid)) ''B7'' = None \<and>
   get_invalid_txn_info ''B7'' s_invalid
     = (Inl (KeyError ''Specified batch id not in invalid cache: B7''), s_invalid)"
  using get_invalid_txn_info_result [of "step returns (TimePasses 3599) s_invalid" "''B1''"
          "[(''id'', Str ''t1''), (''message'', Str ''bad sig'')]" 100]
        get_invalid_txn_info_result [of "step returns (TimePasses 3600) s_invalid" "''B1''"
          "[(''id'', Str ''t1''), (''message'', Str ''bad sig'')]" 100]
        get_invalid_txn_info_result [of s_invalid "''B7''"]
  by (simp add: s_invalid_eq)

text \<open>
  C10, as the code has it. \<open>notify_batch_pending\<close> changes the pending set and then
  ends with \<open>NameError\<close>, raised where the argument of the emission is evaluated;
  the change is not undone, so the batch is in the pending set with its transaction
  ids. A following \<open>get_status\<close> of that batch returns \<open>PENDING\<close> provided the block
  store does not hold the batch and the record store holds no unexpired record for it:
  both take precedence over the pending set.
\<close>

theorem notify_batch_pending_not_atomic:
  "fst (notify_batch_pending b s) = Inl (NameError ''batch_id'') \<and>
   map_of (pending (snd (notify_batch_pending b s))) (batch.header_signature b)
     = Some (set (map transaction.header_signature (transactions b))) \<and>
   (\<not> has_batch (block_store s) (batch.header_signature b) \<and>
    \<not> tc_contains (batch.header_signature b) (clock s) (invalid s) \<longrightarrow>
    get_status (batch.header_signature b) (snd (notify_batch_pending b s))
      = (Inr PENDING, snd (notify_batch_pending b s)))"
  by (simp add: notify_batch_pending_def get_status_def AList.update_conv' AList.dom_update)

theorem notify_batch_pending_not_atomic_witness:
  "\<not> has_batch (block_store (BatchTracker {} 0)) ''B1'' \<and>
   \<not> tc_contains ''B1'' (clock (BatchTracker {} 0)) (invalid (BatchTracker {} 0)) \<and>
   fst (notify_batch_pending (mk_batch ''B1'' [''t1'', ''t2'']) (BatchTracker {} 0))
     = Inl (NameError ''batch_id'') \<and>
   pending (snd (notify_batch_pending (mk_batch ''B1'' [''t1'', ''t2'']) (BatchTracker {} 0)))
     = [(''B1'', {''t1'', ''t2''})] \<and>
   fst (get_status ''B1''
          (snd (notify_batch_pending (mk_batch ''B1'' [''t1'', ''t2'']) (BatchTracker {} 0))))
     = Inr PENDING"
  using notify_batch_pending_not_atomic [of "mk_batch ''B1'' [''t1'', ''t2'']" "BatchTracker {} 0"]
  by (simp add: model_defs)

text \<open>
  C10 as it is stated fails for a batch that the block store already holds: the call
  raises, the batch stays in the pending set, and \<open>get_status\<close> returns
  \<open>COMMITTED\<close>.
\<close>

theorem pending_batch_not_pending_counterexample:
  "fst (notify_batch_pending (mk_batch ''B1'' [''t1'', ''t2'']) (BatchTracker {''B1''} 0))
     = Inl (NameError ''batch_id'') \<and>
   ''B1'' \<in> fst ` set (pending (snd (notify_batch_pending (mk_batch ''B1'' [''t1'', ''t2''])
                                     (BatchTracker {''B1''} 0)))) \<and>
   fst (get_status ''B1''
          (snd (notify_batch_pending (mk_batch ''B1'' [''t1'', ''t2'']) (BatchTracker {''B1''} 0))))
     = Inr COMMITTED \<and>
   fst (get_status ''B1''
          (snd (notify_batch_pending (mk_batch ''B1'' [''t1'', ''t2'']) (BatchTracker {''B1''} 0))))
     \<noteq> Inr PENDING"
  by (simp add: model_defs)

text \<open>
  C1. The code at the failing input: an observer holds \<open>B1\<close> as \<open>UNKNOWN\<close> beside a
  pending \<open>B0\<close>; admitting \<open>B1\<close> puts it into the pending set and then raises
  \<open>NameError\<close>, and the observer's entry for \<open>B1\<close> is still \<open>UNKNOWN\<close>.
\<close>

theorem notify_batch_pending_raises:
  "notify_batch_pending (mk_batch ''B1'' [''t1'', ''t2'']) s_watching
     = (Inl (NameError ''batch_id''),
        s_watching\<lparr>pending := [(''B0'', {''t0''}), (''B1'', {''t1'', ''t2''})]\<rparr>) \<and>
   registry (snd (notify_batch_pending (mk_batch ''B1'' [''t1'', ''t2'']) s_watching))
     = [(Observer 1 [], [(''B0'', PENDING), (''B1'', UNKNOWN)])]"
  by (simp add: s_watching_eq model_defs view_defs)

text \<open>
  C2. The code at the failing input: \<open>B1\<close> is committed and \<open>B2\<close> invalid, so the
  statuses hold no \<open>PENDING\<close>; for an observer that implements the interface and
  nothing more, \<open>watch_statuses\<close> raises \<open>AttributeError\<close> on \<open>notify_finished\<close>,
  and no callback has been made.
\<close>

theorem watch_statuses_raises:
  "fst (get_statuses [''B1'', ''B2''] s_resolved) = Inr [(''B1'', COMMITTED), (''B2'', INVALID)] \<and>
   watch_statuses (Observer 1 []) [''B1'', ''B2''] s_resolved
     = (Inl (AttributeError ''notify_finished''), s_resolved) \<and>
   calls s_resolved = []"
  by (simp add: s_resolved_def model_defs)







text \<open>
  C3, as the code has it. A batch id that is not in the pending set stays out of it
  for as long as no batch with that id is admitted: the sweep, the rejection of a
  transaction, the queries, the registration of an observer and the moves of the
  environment insert nothing. This holds for every consumer code that does not itself
  put the id into the pending set, be it code that raises.
\<close>

theorem removed_batch_stays_out:
  "b \<notin> fst ` set (pending s) \<Longrightarrow> \<forall>e \<in> set es. \<not> admits b e \<Longrightarrow>
   (\<forall>ob r s'. b \<notin> fst ` set (pending s') \<longrightarrow> b \<notin> fst ` set (pending (snd (cb ob r s')))) \<Longrightarrow>
   b \<notin> fst ` set (pending (run cb es s))"
  by (induction es arbitrary: s) (simp_all add: step_keeps_out)

theorem removed_batch_stays_out_witness:
  "''B1'' \<in> fst ` set (pending (run returns [BatchPending (mk_batch ''B1'' [''t1''])]
                                  (BatchTracker {} 0))) \<and>
   ''B1'' \<notin> fst ` set (pending
      (run returns [BatchPending (mk_batch ''B1'' [''t1'']), BlockStoreBecomes {''B1''}, StoreUpdated]
         (BatchTracker {} 0))) \<and>
   list_all (\<lambda>e. \<not> admits ''B1'' e)
     [BatchPending (mk_batch ''B2'' [''t1'']), WatchStatuses (Observer 1 []) [''B1'', ''B2''],
      TxnInvalid ''t1'' None None, StoreUpdated, GetStatus ''B1'',
      BlockStoreBecomes {}, TimePasses 4000] \<and>
   ''B1'' \<notin> fst ` set (pending
      (run returns
         [BatchPending (mk_batch ''B2'' [''t1'']), WatchStatuses (Observer 1 []) [''B1'', ''B2''],
          TxnInvalid ''t1'' None None, StoreUpdated, GetStatus ''B1'',
          BlockStoreBecomes {}, TimePasses 4000]
         (run returns
            [BatchPending (mk_batch ''B1'' [''t1'']), BlockStoreBecomes {''B1''}, StoreUpdated]
            (BatchTracker {} 0)))) \<and>
   ''B1'' \<notin> fst ` set (pending
      (run raises
         [BatchPending (mk_batch ''B2'' [''t1'']), WatchStatuses (Observer 1 []) [''B1'', ''B2''],
          TxnInvalid ''t1'' None None, StoreUpdated, GetStatus ''B1'',
          BlockStoreBecomes {}, TimePasses 4000]
         (run returns
            [BatchPending (mk_batch ''B1'' [''t1'']), BlockStoreBecomes {''B1''}, StoreUpdated]
            (BatchTracker {} 0))))"
  using removed_batch_stays_out [where b = "''B1''" and cb = returns
     and s = "run returns
            [BatchPending (mk_batch ''B1'' [''t1'']), BlockStoreBecomes {''B1''}, StoreUpdated]
            (BatchTracker {} 0)"
     and es = "[BatchPending (mk_batch ''B2'' [''t1'']), WatchStatuses (Observer 1 []) [''B1'', ''B2''],
          TxnInvalid ''t1'' None None, StoreUpdated, GetStatus ''B1'',
          BlockStoreBecomes {}, TimePasses 4000]"]
    removed_batch_stays_out [where b = "''B1''" and cb = raises
     and s = "run returns
            [BatchPending (mk_batch ''B1'' [''t1'']), BlockStoreBecomes {''B1''}, StoreUpdated]
            (BatchTracker {} 0)"
     and es = "[BatchPending (mk_batch ''B2'' [''t1'']), WatchStatuses (Observer 1 []) [''B1'', ''B2''],
          TxnInvalid ''t1'' None None, StoreUpdated, GetStatus ''B1'',
          BlockStoreBecomes {}, TimePasses 4000]"]
  by (simp add: model_defs)

text \<open>
  C3 as it is stated fails: \<open>notify_batch_pending\<close> has no guard, so a batch that was
  admitted and then swept out as committed is in the pending set again after it is
  admitted a second time.
\<close>

theorem readmission_counterexample:
  "''B1'' \<in> fst ` set (pending (run returns [BatchPending (mk_batch ''B1'' [''t1''])]
                                  (BatchTracker {} 0))) \<and>
   ''B1'' \<notin> fst ` set (pending
      (run returns [BatchPending (mk_batch ''B1'' [''t1'']), BlockStoreBecomes {''B1''}, StoreUpdated]
         (BatchTracker {} 0))) \<and>
   ''B1'' \<in> fst ` set (pending
      (run returns [BatchPending (mk_batch ''B1'' [''t1'']), BlockStoreBecomes {''B1''}, StoreUpdated,
            BatchPending (mk_batch ''B1'' [''t1''])]
         (BatchTracker {} 0)))"
  by (simp add: model_defs)

text \<open>
  C4, as the code has it. In every state reached from the initial state by a run in
  which no batch is admitted while the record store holds its id, no batch id is a
  key of both the pending set and the record store. This holds for every consumer code
  that keeps the two key sets disjoint, be it code that raises.
\<close>

theorem guarded_run_keys_disjoint:
  "guarded_run cb es (BatchTracker store t0) \<Longrightarrow>
   (\<forall>ob r s'. keys_disjoint s' \<longrightarrow> keys_disjoint (snd (cb ob r s'))) \<Longrightarrow>
   keys_disjoint (run cb es (BatchTracker store t0))"
  by (simp add: run_keeps_disjoint keys_disjoint_init)

theorem guarded_run_keys_disjoint_witness:
  "guarded_run returns
     [BatchPending (mk_batch ''B1'' [''t1'']), WatchStatuses (Observer 1 []) [''B1''],
      TxnInvalid ''t1'' None None, BatchPending (mk_batch ''B2'' [''t2'']), TimePasses 3600,
      BatchPending (mk_batch ''B1'' [''t1''])] (BatchTracker {} 0) \<and>
   keys_disjoint (run returns
     [BatchPending (mk_batch ''B1'' [''t1'']), WatchStatuses (Observer 1 []) [''B1''],
      TxnInvalid ''t1'' None None, BatchPending (mk_batch ''B2'' [''t2'']), TimePasses 3600,
      BatchPending (mk_batch ''B1'' [''t1''])] (BatchTracker {} 0)) \<and>
   map fst (pending (run returns
     [BatchPending (mk_batch ''B1'' [''t1'']), WatchStatuses (Observer 1 []) [''B1''],
      TxnInvalid ''t1'' None None, BatchPending (mk_batch ''B2'' [''t2'']), TimePasses 3600,
      BatchPending (mk_batch ''B1'' [''t1''])] (BatchTracker {} 0))) = [''B2'', ''B1''] \<and>
   guarded_run raises
     [BatchPending (mk_batch ''B1'' [''t1'']), WatchStatuses (Observer 1 []) [''B1''],
      TxnInvalid ''t1'' None None, BatchPending (mk_batch ''B2'' [''t2'']), TimePasses 3600,
      BatchPending (mk_batch ''B1'' [''t1''])] (BatchTracker {} 0) \<and>
   keys_disjoint (run raises
     [BatchPending (mk_batch ''B1'' [''t1'']), WatchStatuses (Observer 1 []) [''B1''],
      TxnInvalid ''t1'' None None, BatchPending (mk_batch ''B2'' [''t2'']), TimePasses 3600,
      BatchPending (mk_batch ''B1'' [''t1''])] (BatchTracker {} 0))"
  using guarded_run_keys_disjoint [where cb = returns and store = "{}" and ?t0.0 = 0 and es =
     "[BatchPending (mk_batch ''B1'' [''t1'']), WatchStatuses (Observer 1 []) [''B1''],
      TxnInvalid ''t1'' None None, BatchPending (mk_batch ''B2'' [''t2'']), TimePasses 3600,
      BatchPending (mk_batch ''B1'' [''t1''])]"]
    guarded_run_keys_disjoint [where cb = raises and store = "{}" and ?t0.0 = 0 and es =
     "[BatchPending (mk_batch ''B1'' [''t1'']), WatchStatuses (Observer 1 []) [''B1''],
      TxnInvalid ''t1'' None None, BatchPending (mk_batch ''B2'' [''t2'']), TimePasses 3600,
      BatchPending (mk_batch ''B1'' [''t1''])]"]
  by (simp add: model_defs)

text \<open>
  C4 as it is stated fails: a batch that was marked invalid and is admitted again
  within the retention time is a key of the pending set and of the record store.
\<close>

theorem pending_and_invalid_counterexample:
  "''B1'' \<in> fst ` set (pending
      (run returns [BatchPending (mk_batch ''B1'' [''t1'']), TxnInvalid ''t1'' None None,
            BatchPending (mk_batch ''B1'' [''t1''])] (BatchTracker {} 0))) \<and>
   tc_contains ''B1''
     (clock (run returns [BatchPending (mk_batch ''B1'' [''t1'']), TxnInvalid ''t1'' None None,
                  BatchPending (mk_batch ''B1'' [''t1''])] (BatchTracker {} 0)))
     (invalid (run returns [BatchPending (mk_batch ''B1'' [''t1'']), TxnInvalid ''t1'' None None,
                    BatchPending (mk_batch ''B1'' [''t1''])] (BatchTracker {} 0)))"
  by (simp add: model_defs)




end
